theory Spec2Isabelle
  imports Main "HOL-Library.AList"
begin

section \<open>Data model\<close>

text \<open>
  The dispatcher (class \<open>Scheduler\<close>) and the audit recorder (class \<open>Recorder\<close>) of the
  workflow engine. Opaque node-defined payloads (\<open>properties\<close>, \<open>detail\<close>) are
  key-value bags; an optional property of a JavaScript object is an \<open>option\<close>.
\<close>

type_synonym payload = "(string \<times> string) list"

text \<open>
  Modelled from the spec: the constant \<open>FlowStatus\<close> of \<open>constant/constant\<close>; an
  action result's status is one of COMPLETED and INTERRUPTED.
\<close>

datatype FlowStatus = COMPLETED | INTERRUPTED

record NodeParam =
  executionId :: string
  nodeId :: string

record TaskParam = NodeParam +
  taskId :: string

text \<open>The parameter of \<open>resume\<close>: a task identity together with the resume input.\<close>

record ResumeParam = TaskParam +
  data :: "payload option"

record OutgoingConfig =
  target :: string

record ExtraInfo =
  ei_status :: FlowStatus
  ei_detail :: "payload option"

text \<open>
  \<open>NextTaskParam\<close> is what a node hands to the continuation; \<open>TaskResult\<close> is
  \<open>{ extraInfo?: ... } & NextTaskParam\<close>.
\<close>

record NextTaskParam = TaskParam +
  nodeType :: string
  outgoing :: "OutgoingConfig list"
  properties :: "payload option"

record TaskResult = NextTaskParam +
  extraInfo :: "ExtraInfo option"

text \<open>The value a node's \<open>execute\<close> resolves to.\<close>

record ActionResult =
  ar_status :: FlowStatus
  ar_nodeType :: string
  ar_properties :: "payload option"
  ar_outgoing :: "OutgoingConfig list"
  ar_detail :: "payload option"

text \<open>
  The record handed to the recorder. A property that an object literal does not
  carry reads as \<open>undefined\<close>: \<open>None\<close>.
\<close>

record RecorderData =
  rd_executionId :: string
  rd_taskId :: string
  rd_nodeId :: string
  rd_nodeType :: string
  rd_timestamp :: nat
  rd_properties :: "payload option"
  rd_extraInfo :: "ExtraInfo option"

record RunParams =
  rp_executionId :: string
  rp_nodeId :: "string option"
  rp_taskId :: "string option"

text \<open>
  The two events of the dispatcher with their payloads:
  instance-complete \<open>{executionId, nodeId, taskId, status}\<close> and
  instance-interrupted \<open>{executionId, status, nodeId, taskId, detail}\<close>.
\<close>

datatype event =
  EVENT_INSTANCE_COMPLETE string "string option" "string option" FlowStatus
| EVENT_INSTANCE_INTERRUPTED string FlowStatus string string "payload option"

subsection \<open>JavaScript maps\<close>

text \<open>
  A \<open>Map\<close> is an association list in insertion order: \<open>set\<close> on a present key
  replaces the value in place, on a new key it appends; \<open>delete\<close> removes the key.
\<close>

type_synonym ('k, 'v) jsmap = "('k \<times> 'v) list"

definition Map_has :: "('k, 'v) jsmap \<Rightarrow> 'k \<Rightarrow> bool" where
  "Map_has m k = (map_of m k \<noteq> None)"

definition Map_get :: "('k, 'v) jsmap \<Rightarrow> 'k \<Rightarrow> 'v option" where
  "Map_get m k = map_of m k"

definition Map_set :: "('k, 'v) jsmap \<Rightarrow> 'k \<Rightarrow> 'v \<Rightarrow> ('k, 'v) jsmap" where
  "Map_set m k v = AList.update k v m"

definition Map_delete :: "('k, 'v) jsmap \<Rightarrow> 'k \<Rightarrow> ('k, 'v) jsmap" where
  "Map_delete m k = AList.delete k m"

section \<open>The dispatcher\<close>

text \<open>
  The state of a \<open>Scheduler\<close>: its two maps, and the traces of what it did to its
  collaborators: the events it emitted, the records it handed to
  \<open>recorder.addTask\<close>, and the \<open>execute\<close> and \<open>resume\<close> invocations it made on
  the tasks of the flow model, each in call order.
\<close>

record Scheduler =
  nodeQueueMap :: "(string, NodeParam list) jsmap"
  taskRunningMap :: "(string, (string, TaskParam) jsmap) jsmap"
  currentTask :: "TaskParam option"
  emitted :: "event list"
  recorder :: "RecorderData list"
  executeCalls :: "TaskParam list"
  resumeCalls :: "ResumeParam list"

definition constructor :: Scheduler where
  "constructor =
     \<lparr>nodeQueueMap = [], taskRunningMap = [], currentTask = None,
      emitted = [], recorder = [], executeCalls = [], resumeCalls = []\<rparr>"

text \<open>
  Modelled from the spec: the event channel (the class \<open>EventEmitter\<close> that the
  dispatcher extends is not part of the sources). \<open>emit\<close> announces an event to the
  current subscribers, in emission order; the state keeps the sequence of emitted events.
\<close>

definition emit :: "Scheduler \<Rightarrow> event \<Rightarrow> Scheduler" where
  "emit st ev = st\<lparr>emitted := emitted st @ [ev]\<rparr>"

definition addTask :: "Scheduler \<Rightarrow> NodeParam \<Rightarrow> Scheduler" where
  "addTask st nodeParam =
     (let e = executionId nodeParam;
          nqm = (if \<not> Map_has (nodeQueueMap st) e
                 then Map_set (nodeQueueMap st) e []
                 else nodeQueueMap st)
      in case Map_get nqm e of
           Some currentTaskQueue \<Rightarrow>
             st\<lparr>nodeQueueMap := Map_set nqm e (currentTaskQueue @ [nodeParam])\<rparr>
         | None \<Rightarrow> st\<lparr>nodeQueueMap := nqm\<rparr>)"

definition getNextNode :: "Scheduler \<Rightarrow> string \<Rightarrow> NodeParam option \<times> Scheduler" where
  "getNextNode st e =
     (case Map_get (nodeQueueMap st) e of
        None \<Rightarrow> (None, st)
      | Some [] \<Rightarrow> (None, st)
      | Some (head # rest) \<Rightarrow>
          (Some head, st\<lparr>nodeQueueMap := Map_set (nodeQueueMap st) e rest\<rparr>))"

definition pushTaskToRunningMap :: "Scheduler \<Rightarrow> TaskParam \<Rightarrow> Scheduler" where
  "pushTaskToRunningMap st taskParam =
     (let e = executionId taskParam; t = taskId taskParam;
          trm = (if \<not> Map_has (taskRunningMap st) e
                 then Map_set (taskRunningMap st) e []
                 else taskRunningMap st)
      in case Map_get trm e of
           Some runningMap \<Rightarrow>
             st\<lparr>taskRunningMap := Map_set trm e (Map_set runningMap t taskParam)\<rparr>
         | None \<Rightarrow> st\<lparr>taskRunningMap := trm\<rparr>)"

text \<open>\<open>!taskId\<close> holds of the empty string.\<close>

definition removeTaskFromRunningMap :: "Scheduler \<Rightarrow> 'a TaskParam_scheme \<Rightarrow> Scheduler" where
  "removeTaskFromRunningMap st taskParam =
     (let e = executionId taskParam; t = taskId taskParam
      in if t = [] then st
         else case Map_get (taskRunningMap st) e of
                None \<Rightarrow> st
              | Some runningMap \<Rightarrow>
                  st\<lparr>taskRunningMap := Map_set (taskRunningMap st) e (Map_delete runningMap t)\<rparr>)"

definition hasRunningTask :: "Scheduler \<Rightarrow> string \<Rightarrow> bool \<times> Scheduler" where
  "hasRunningTask st e =
     (case Map_get (taskRunningMap st) e of
        None \<Rightarrow> (False, st)
      | Some runningMap \<Rightarrow>
          if length runningMap = 0
          then (False, st\<lparr>taskRunningMap := Map_delete (taskRunningMap st) e\<rparr>)
          else (True, st))"

definition saveTaskResult :: "Scheduler \<Rightarrow> TaskResult \<Rightarrow> nat \<Rightarrow> Scheduler" where
  "saveTaskResult st d now =
     st\<lparr>recorder := recorder st @
        [\<lparr>rd_executionId = executionId d, rd_taskId = taskId d, rd_nodeId = nodeId d,
          rd_nodeType = nodeType d, rd_timestamp = now, rd_properties = properties d,
          rd_extraInfo = None\<rparr>]\<rparr>"

definition interrupted :: "Scheduler \<Rightarrow> ActionResult \<Rightarrow> TaskParam \<Rightarrow> Scheduler" where
  "interrupted st execResult taskParam =
     emit st (EVENT_INSTANCE_INTERRUPTED (executionId taskParam) INTERRUPTED
                (nodeId taskParam) (taskId taskParam) (ar_detail execResult))"

text \<open>
  \<open>exec\<close> is asynchronous. Up to its \<open>await\<close> it asks the flow model for the task of
  the node and invokes \<open>execute\<close> on it (\<open>exec_call\<close>); what follows the \<open>await\<close>
  runs when the node's promise resolves, with the value it resolved to
  (\<open>exec_settled\<close>, \<open>None\<close> for no value). \<open>now\<close> is what \<open>Date.now()\<close> returns.
  What the node itself does with the continuation it is given is a call of \<open>next\<close>,
  a step of its own.
\<close>

definition exec_call :: "Scheduler \<Rightarrow> TaskParam \<Rightarrow> Scheduler" where
  "exec_call st taskParam = st\<lparr>executeCalls := executeCalls st @ [taskParam]\<rparr>"

definition exec_settled :: "Scheduler \<Rightarrow> TaskParam \<Rightarrow> ActionResult option \<Rightarrow> nat \<Rightarrow> Scheduler" where
  "exec_settled st taskParam res now =
     (case res of
        None \<Rightarrow> st
      | Some execResult \<Rightarrow>
          if ar_status execResult = INTERRUPTED then
            (let st1 = interrupted st execResult taskParam;
                 st2 = saveTaskResult st1
                         \<lparr>executionId = executionId taskParam, nodeId = nodeId taskParam,
                          taskId = taskId taskParam, nodeType = ar_nodeType execResult,
                          outgoing = [], properties = ar_properties execResult,
                          extraInfo = Some \<lparr>ei_status = ar_status execResult,
                                             ei_detail = ar_detail execResult\<rparr>\<rparr> now
             in removeTaskFromRunningMap st2 taskParam)
          else st)"

text \<open>
  \<open>run\<close>; \<open>newTaskId\<close> is what \<open>createTaskId()\<close> returns when it is called. The call
  of \<open>exec\<close> is not awaited: \<open>run\<close> returns once \<open>execute\<close> has been invoked.
\<close>

definition run :: "Scheduler \<Rightarrow> RunParams \<Rightarrow> string \<Rightarrow> Scheduler" where
  "run st runParams newTaskId =
     (let e = rp_executionId runParams in
      case getNextNode st e of
        (Some currentNode, st1) \<Rightarrow>
          (let taskParam = \<lparr>executionId = executionId currentNode,
                            nodeId = nodeId currentNode, taskId = newTaskId\<rparr>
           in exec_call (pushTaskToRunningMap st1 taskParam) taskParam)
      | (None, st1) \<Rightarrow>
          (case hasRunningTask st1 e of
             (False, st2) \<Rightarrow>
               emit st2 (EVENT_INSTANCE_COMPLETE e (rp_nodeId runParams)
                           (rp_taskId runParams) COMPLETED)
           | (True, st2) \<Rightarrow> st2))"

text \<open>
  \<open>resume\<close>, split at its \<open>await\<close> like \<open>exec\<close>: nothing follows the \<open>await\<close>.
\<close>

definition resume_call :: "Scheduler \<Rightarrow> ResumeParam \<Rightarrow> Scheduler" where
  "resume_call st resumeParam =
     (let st1 = pushTaskToRunningMap st
                  \<lparr>executionId = executionId resumeParam, nodeId = nodeId resumeParam,
                   taskId = taskId resumeParam\<rparr>
      in st1\<lparr>resumeCalls := resumeCalls st1 @ [resumeParam]\<rparr>)"

definition resume_settled :: "Scheduler \<Rightarrow> ResumeParam \<Rightarrow> ActionResult option \<Rightarrow> Scheduler" where
  "resume_settled st resumeParam res = st"

text \<open>
  The continuation \<open>next\<close>, which a node calls with its result. It contains no
  \<open>await\<close> and runs to its end when called, the nested \<open>run\<close> included. The
  outgoing edges are a list by their type; the guard on its length is kept.
\<close>

definition "next" :: "Scheduler \<Rightarrow> NextTaskParam \<Rightarrow> nat \<Rightarrow> string \<Rightarrow> Scheduler" where
  "next st d now newTaskId =
     (let st1 = (if length (outgoing d) > 0
                 then foldl (\<lambda>s item. addTask s \<lparr>executionId = executionId d,
                                                  nodeId = target item\<rparr>)
                        st (outgoing d)
                 else st);
          st2 = saveTaskResult st1
                  \<lparr>executionId = executionId d, nodeId = nodeId d, taskId = taskId d,
                   nodeType = nodeType d, outgoing = outgoing d, properties = properties d,
                   extraInfo = None\<rparr> now;
          st3 = removeTaskFromRunningMap st2 d
      in run st3 \<lparr>rp_executionId = executionId d, rp_nodeId = Some (nodeId d),
                  rp_taskId = Some (taskId d)\<rparr> newTaskId)"

section \<open>The audit recorder\<close>

text \<open>
  Modelled from the spec: the module \<open>util/storage\<close> is not part of the sources; it is
  the persistence backend, a key-value store with \<open>getItem\<close>, \<open>setItem\<close> and
  \<open>removeItem\<close>, where \<open>getItem\<close> of an absent key is a falsy value. The recorder
  stores lists of identifiers and task records in it.
\<close>

datatype stored = Ids "string list" | Task RecorderData

type_synonym storage = "(string, stored) jsmap"

definition getItem :: "storage \<Rightarrow> string \<Rightarrow> stored option" where
  "getItem s k = Map_get s k"

definition setItem :: "storage \<Rightarrow> string \<Rightarrow> stored \<Rightarrow> storage" where
  "setItem s k v = Map_set s k v"

definition removeItem :: "storage \<Rightarrow> string \<Rightarrow> storage" where
  "removeItem s k = Map_delete s k"

definition LOGICFLOW_ENGINE_INSTANCES :: string where
  "LOGICFLOW_ENGINE_INSTANCES = ''LOGICFLOW_ENGINE_INSTANCES''"

datatype js_error = TypeError

text \<open>
  \<open>x || []\<close> used as an array: the empty list for an absent item, and a type error
  (\<open>push\<close> or \<open>forEach\<close> is not a function) for an item that is a task record.
\<close>

definition or_empty :: "stored option \<Rightarrow> js_error + string list" where
  "or_empty x = (case x of None \<Rightarrow> Inr [] | Some (Ids xs) \<Rightarrow> Inr xs | Some (Task _) \<Rightarrow> Inl TypeError)"

definition Recorder_getTask :: "storage \<Rightarrow> string \<Rightarrow> stored option" where
  "Recorder_getTask s t = getItem s t"

definition Recorder_getExecutionTasks :: "storage \<Rightarrow> string \<Rightarrow> stored option" where
  "Recorder_getExecutionTasks s e = getItem s e"

text \<open>
  \<open>Recorder.addTask\<close>, run to its end without another storage access in between.
\<close>

definition Recorder_addTask :: "storage \<Rightarrow> RecorderData \<Rightarrow> js_error + storage" where
  "Recorder_addTask s task =
     (let e = rd_executionId task; t = rd_taskId task in
      case Recorder_getExecutionTasks s e of
        None \<Rightarrow>
          (case or_empty (getItem s LOGICFLOW_ENGINE_INSTANCES) of
             Inl err \<Rightarrow> Inl err
           | Inr instance \<Rightarrow>
               (let s1 = setItem s LOGICFLOW_ENGINE_INSTANCES (Ids (instance @ [e]));
                    s2 = setItem s1 e (Ids ([] @ [t]))
                in Inr (setItem s2 t (Task task))))
      | Some (Ids instanceData) \<Rightarrow>
          (let s2 = setItem s e (Ids (instanceData @ [t]))
           in Inr (setItem s2 t (Task task)))
      | Some (Task _) \<Rightarrow> Inl TypeError)"

text \<open>
  \<open>Recorder.clear\<close>: the body of the outer \<open>forEach\<close> for one execution id, then the
  loop, then the removal of the instance list.
\<close>

definition clear_instance :: "storage \<Rightarrow> string \<Rightarrow> js_error + storage" where
  "clear_instance s e =
     (let s1 = removeItem s e in
      case or_empty (getItem s1 e) of
        Inl err \<Rightarrow> Inl err
      | Inr instanceData \<Rightarrow> Inr (foldl removeItem s1 instanceData))"

fun clear_instances :: "storage \<Rightarrow> string list \<Rightarrow> js_error + storage" where
  "clear_instances s [] = Inr s"
| "clear_instances s (e # es) =
     (case clear_instance s e of Inl err \<Rightarrow> Inl err | Inr s1 \<Rightarrow> clear_instances s1 es)"

definition Recorder_clear :: "storage \<Rightarrow> js_error + storage" where
  "Recorder_clear s =
     (case or_empty (getItem s LOGICFLOW_ENGINE_INSTANCES) of
        Inl err \<Rightarrow> Inl err
      | Inr instance \<Rightarrow>
          (case clear_instances s instance of
             Inl err \<Rightarrow> Inl err
           | Inr s1 \<Rightarrow> Inr (removeItem s1 LOGICFLOW_ENGINE_INSTANCES)))"

section \<open>Observations\<close>

text \<open>
  The ready queue and the running registry of one execution instance, empty when the
  map has no entry for it.
\<close>

definition queueOf :: "Scheduler \<Rightarrow> string \<Rightarrow> NodeParam list" where
  "queueOf st e = (case Map_get (nodeQueueMap st) e of None \<Rightarrow> [] | Some q \<Rightarrow> q)"

definition runningOf :: "Scheduler \<Rightarrow> string \<Rightarrow> (string, TaskParam) jsmap" where
  "runningOf st e = (case Map_get (taskRunningMap st) e of None \<Rightarrow> [] | Some m \<Rightarrow> m)"

text \<open>The calls an outside caller and the nodes make on the queue, in sequence.\<close>

datatype call = AddTask NodeParam | Run RunParams string

fun perform :: "Scheduler \<Rightarrow> call \<Rightarrow> Scheduler" where
  "perform st (AddTask nodeParam) = addTask st nodeParam"
| "perform st (Run runParams newTaskId) = run st runParams newTaskId"

fun enqueued :: "string \<Rightarrow> call list \<Rightarrow> NodeParam list" where
  "enqueued e [] = []"
| "enqueued e (AddTask nodeParam # cs) =
     (if executionId nodeParam = e then nodeParam # enqueued e cs else enqueued e cs)"
| "enqueued e (Run runParams newTaskId # cs) = enqueued e cs"

definition launched :: "string \<Rightarrow> TaskParam list \<Rightarrow> NodeParam list" where
  "launched e ts =
     map (\<lambda>t. \<lparr>executionId = executionId t, nodeId = nodeId t\<rparr>)
       (filter (\<lambda>t. executionId t = e) ts)"

text \<open>Every node waiting in a queue is filed under its own execution id.\<close>

definition queues_wf :: "Scheduler \<Rightarrow> bool" where
  "queues_wf st = (\<forall>e. \<forall>np \<in> set (queueOf st e). executionId np = e)"

section \<open>Maps and queues\<close>

lemma Map_get_set: "Map_get (Map_set m k v) k' = (if k' = k then Some v else Map_get m k')"
  by (simp add: Map_get_def Map_set_def update_conv')

lemma Map_get_delete: "Map_get (Map_delete m k) k' = (if k' = k then None else Map_get m k')"
  by (simp add: Map_get_def Map_delete_def delete_conv')

lemma Map_has_get: "Map_has m k = (Map_get m k \<noteq> None)"
  by (simp add: Map_has_def Map_get_def)

lemma Map_set_set: "Map_set (Map_set m k v) k w = Map_set m k w"
  by (simp add: Map_set_def)

lemma addTask_eq:
  "addTask st np =
     st\<lparr>nodeQueueMap := Map_set (nodeQueueMap st) (executionId np)
                          (queueOf st (executionId np) @ [np])\<rparr>"
  by (cases "Map_get (nodeQueueMap st) (executionId np)")
     (simp_all add: addTask_def queueOf_def Map_has_get Map_get_set Map_set_set)

lemma queueOf_addTask:
  "queueOf (addTask st np) e =
     (if e = executionId np then queueOf st e @ [np] else queueOf st e)"
  by (simp add: addTask_eq queueOf_def Map_get_set)

lemma getNextNode_empty: "queueOf st e = [] \<Longrightarrow> getNextNode st e = (None, st)"
  by (simp add: getNextNode_def queueOf_def split: option.splits list.splits)

lemma getNextNode_cons:
  "queueOf st e = x # xs \<Longrightarrow>
   getNextNode st e = (Some x, st\<lparr>nodeQueueMap := Map_set (nodeQueueMap st) e xs\<rparr>)"
  by (simp add: getNextNode_def queueOf_def split: option.splits list.splits)

lemma hasRunningTask_fst: "fst (hasRunningTask st e) = (runningOf st e \<noteq> [])"
  by (simp add: hasRunningTask_def runningOf_def split: option.splits)

lemma hasRunningTask_snd:
  "snd (hasRunningTask st e) =
     (if Map_get (taskRunningMap st) e = Some []
      then st\<lparr>taskRunningMap := Map_delete (taskRunningMap st) e\<rparr> else st)"
  by (simp add: hasRunningTask_def split: option.splits)

lemma pushTaskToRunningMap_eq:
  "pushTaskToRunningMap st tp =
     st\<lparr>taskRunningMap := Map_set (taskRunningMap st) (executionId tp)
                            (Map_set (runningOf st (executionId tp)) (taskId tp) tp)\<rparr>"
  by (cases "Map_get (taskRunningMap st) (executionId tp)")
     (simp_all add: pushTaskToRunningMap_def runningOf_def Map_has_get Map_get_set Map_set_set)

lemma run_empty:
  assumes "queueOf st (rp_executionId rp) = []"
  shows "run st rp nid =
     (if runningOf st (rp_executionId rp) = []
      then emit (snd (hasRunningTask st (rp_executionId rp)))
             (EVENT_INSTANCE_COMPLETE (rp_executionId rp) (rp_nodeId rp) (rp_taskId rp) COMPLETED)
      else st)"
proof -
  obtain b st2 where h: "hasRunningTask st (rp_executionId rp) = (b, st2)"
    by (cases "hasRunningTask st (rp_executionId rp)")
  have b: "b = (runningOf st (rp_executionId rp) \<noteq> [])"
    using hasRunningTask_fst [of st "rp_executionId rp"] h by simp
  have "b \<Longrightarrow> st2 = st"
    using h by (auto simp: hasRunningTask_def split: option.splits if_splits)
  then show ?thesis
    using assms h b by (auto simp: run_def getNextNode_empty)
qed

lemma run_cons:
  assumes "queueOf st (rp_executionId rp) = x # xs"
  shows "run st rp nid =
     exec_call
       (pushTaskToRunningMap
          (st\<lparr>nodeQueueMap := Map_set (nodeQueueMap st) (rp_executionId rp) xs\<rparr>)
          \<lparr>executionId = executionId x, nodeId = nodeId x, taskId = nid\<rparr>)
       \<lparr>executionId = executionId x, nodeId = nodeId x, taskId = nid\<rparr>"
  using assms by (simp add: run_def getNextNode_cons Let_def)

section \<open>Launch and completion\<close>

text \<open>
  C2: a call of \<open>run\<close> emits the instance-complete event if and only if, when it is
  called, the ready queue of the instance is empty or absent and its running registry
  is empty or absent; it emits nothing else. A \<open>run\<close> right after an \<open>addTask\<close> for
  the instance finds the queue non-empty and emits nothing.
\<close>

theorem run_emits_complete_iff:
  "emitted (run st rp nid) =
     (if queueOf st (rp_executionId rp) = [] \<and> runningOf st (rp_executionId rp) = []
      then emitted st @ [EVENT_INSTANCE_COMPLETE (rp_executionId rp) (rp_nodeId rp)
                           (rp_taskId rp) COMPLETED]
      else emitted st)
   \<and> emitted (run (addTask st \<lparr>executionId = rp_executionId rp, nodeId = n\<rparr>) rp nid)
       = emitted st"
proof
  show "emitted (run st rp nid) =
     (if queueOf st (rp_executionId rp) = [] \<and> runningOf st (rp_executionId rp) = []
      then emitted st @ [EVENT_INSTANCE_COMPLETE (rp_executionId rp) (rp_nodeId rp)
                           (rp_taskId rp) COMPLETED]
      else emitted st)"
  proof (cases "queueOf st (rp_executionId rp)")
    case Nil
    then show ?thesis
      by (simp add: run_empty emit_def hasRunningTask_snd)
  next
    case (Cons x xs)
    then show ?thesis
      by (simp add: run_cons exec_call_def pushTaskToRunningMap_eq)
  qed
next
  let ?np = "\<lparr>executionId = rp_executionId rp, nodeId = n\<rparr>"
  have "queueOf (addTask st ?np) (rp_executionId rp) = queueOf st (rp_executionId rp) @ [?np]"
    by (simp add: queueOf_addTask)
  then obtain x xs where "queueOf (addTask st ?np) (rp_executionId rp) = x # xs"
    by (cases "queueOf st (rp_executionId rp)") simp_all
  then have "emitted (run (addTask st ?np) rp nid) = emitted (addTask st ?np)"
    by (simp add: run_cons exec_call_def pushTaskToRunningMap_eq)
  then show "emitted (run (addTask st ?np) rp nid) = emitted st"
    by (simp add: addTask_eq)
qed

text \<open>
  C10: for an execution id with no entry in the ready-queue map and no running task
  (no entry in the running registry, or an empty one), a call of \<open>run\<close> emits the
  instance-complete event with status COMPLETED and the node id and task id of the
  call, and launches nothing: no \<open>execute\<close> is invoked and no queue changes.
\<close>

theorem run_unknown_instance_completes:
  assumes "Map_get (nodeQueueMap st) e = None" and "runningOf st e = []"
  shows "emitted (run st \<lparr>rp_executionId = e, rp_nodeId = n, rp_taskId = t\<rparr> nid) =
           emitted st @ [EVENT_INSTANCE_COMPLETE e n t COMPLETED]
       \<and> executeCalls (run st \<lparr>rp_executionId = e, rp_nodeId = n, rp_taskId = t\<rparr> nid) =
           executeCalls st
       \<and> nodeQueueMap (run st \<lparr>rp_executionId = e, rp_nodeId = n, rp_taskId = t\<rparr> nid) =
           nodeQueueMap st
       \<and> runningOf (run st \<lparr>rp_executionId = e, rp_nodeId = n, rp_taskId = t\<rparr> nid) e = []"
proof -
  have q: "queueOf st (rp_executionId \<lparr>rp_executionId = e, rp_nodeId = n, rp_taskId = t\<rparr>) = []"
    using assms(1) by (simp add: queueOf_def)
  show ?thesis
    using assms(2) by (simp add: run_empty [OF q] emit_def hasRunningTask_snd runningOf_def
        Map_get_delete split: option.splits)
qed

theorem run_unknown_instance_completes_witness:
  "Map_get (nodeQueueMap constructor) ''never-seen'' = None
   \<and> runningOf constructor ''never-seen'' = []
   \<and> emitted (run constructor
        \<lparr>rp_executionId = ''never-seen'', rp_nodeId = None, rp_taskId = None\<rparr> ''task-1'') =
       [EVENT_INSTANCE_COMPLETE ''never-seen'' None None COMPLETED]
   \<and> executeCalls (run constructor
        \<lparr>rp_executionId = ''never-seen'', rp_nodeId = None, rp_taskId = None\<rparr> ''task-1'') = []"
proof -
  have a: "Map_get (nodeQueueMap constructor) ''never-seen'' = None"
    by (simp add: constructor_def Map_get_def)
  have b: "runningOf constructor ''never-seen'' = []"
    by (simp add: constructor_def runningOf_def Map_get_def)
  show ?thesis
    using a b run_unknown_instance_completes [OF a b, of None None "''task-1''"]
    by (simp add: constructor_def)
qed

section \<open>The ready queue\<close>

lemma queueOf_run:
  "queueOf (run st rp nid) e =
     (if e = rp_executionId rp then tl (queueOf st e) else queueOf st e)"
proof (cases "queueOf st (rp_executionId rp)")
  case Nil
  then show ?thesis
    by (simp add: run_empty emit_def hasRunningTask_snd queueOf_def)
next
  case (Cons x xs)
  then show ?thesis
    by (simp add: run_cons exec_call_def pushTaskToRunningMap_eq queueOf_def Map_get_set)
qed

lemma executeCalls_run:
  "executeCalls (run st rp nid) =
     (case queueOf st (rp_executionId rp) of
        [] \<Rightarrow> executeCalls st
      | x # xs \<Rightarrow>
          executeCalls st @ [\<lparr>executionId = executionId x, nodeId = nodeId x, taskId = nid\<rparr>])"
proof (cases "queueOf st (rp_executionId rp)")
  case Nil
  then show ?thesis
    by (simp add: run_empty emit_def hasRunningTask_snd)
next
  case (Cons x xs)
  then show ?thesis
    by (simp add: run_cons exec_call_def pushTaskToRunningMap_eq)
qed

lemma executeCalls_addTask: "executeCalls (addTask st np) = executeCalls st"
  by (simp add: addTask_eq)

lemma queues_wf_constructor: "queues_wf constructor"
  by (simp add: queues_wf_def queueOf_def constructor_def Map_get_def)

lemma in_set_tl: "np \<in> set (tl q) \<Longrightarrow> np \<in> set q"
  by (cases q) simp_all

lemma queues_wf_perform: "queues_wf st \<Longrightarrow> queues_wf (perform st c)"
proof (cases c)
  case (AddTask np)
  assume "queues_wf st"
  then show ?thesis
    using AddTask by (auto simp: queues_wf_def queueOf_addTask)
next
  case (Run rp nid)
  assume "queues_wf st"
  then show ?thesis
    using Run by (auto simp: queues_wf_def queueOf_run dest: in_set_tl)
qed

lemma launched_append: "launched e (ts @ us) = launched e ts @ launched e us"
  by (simp add: launched_def)

lemma perform_order:
  assumes "queues_wf st"
  shows "launched e (executeCalls (perform st c)) @ queueOf (perform st c) e =
         launched e (executeCalls st) @ queueOf st e @ enqueued e [c]"
proof (cases c)
  case (AddTask np)
  then show ?thesis
    by (simp add: executeCalls_addTask queueOf_addTask)
next
  case (Run rp nid)
  show ?thesis
  proof (cases "queueOf st (rp_executionId rp)")
    case Nil
    then show ?thesis
      using Run by (simp add: executeCalls_run queueOf_run)
  next
    case (Cons x xs)
    then have x: "executionId x = rp_executionId rp"
      using assms by (auto simp: queues_wf_def)
    have "\<lparr>executionId = executionId x, nodeId = nodeId x\<rparr> = x"
      by simp
    then show ?thesis
      using Run Cons x by (simp add: executeCalls_run queueOf_run launched_append launched_def)
  qed
qed

lemma enqueued_Cons: "enqueued e (c # cs) = enqueued e [c] @ enqueued e cs"
  by (cases c) simp_all

lemma foldl_perform_order:
  "queues_wf st \<Longrightarrow>
   launched e (executeCalls (foldl perform st cs)) @ queueOf (foldl perform st cs) e =
   launched e (executeCalls st) @ queueOf st e @ enqueued e cs"
proof (induction cs arbitrary: st)
  case Nil
  then show ?case by simp
next
  case (Cons c cs)
  have "launched e (executeCalls (foldl perform (perform st c) cs))
          @ queueOf (foldl perform (perform st c) cs) e =
        launched e (executeCalls (perform st c)) @ queueOf (perform st c) e @ enqueued e cs"
    using Cons.IH [OF queues_wf_perform [OF Cons.prems]] .
  also have "\<dots> = (launched e (executeCalls st) @ queueOf st e @ enqueued e [c]) @ enqueued e cs"
    using perform_order [OF Cons.prems, of e c] by simp
  finally show ?case
    by (simp add: enqueued_Cons [of e c cs])
qed

text \<open>
  C3: the ready queue of an instance is first in, first out. \<open>addTask\<close> appends the
  node at the tail of the queue of its instance; \<open>run\<close> on a non-empty queue removes
  the head and invokes \<open>execute\<close> for it; and over every sequence of \<open>addTask\<close> and
  \<open>run\<close> calls on a new dispatcher, the nodes launched for an instance followed by
  the nodes still waiting in its queue are the nodes enqueued for it, in the order
  of their \<open>addTask\<close> calls.
\<close>

theorem ready_queue_fifo:
  "queueOf (addTask st np) (executionId np) = queueOf st (executionId np) @ [np]
   \<and> (queueOf st (rp_executionId rp) = x # xs \<longrightarrow>
        executeCalls (run st rp nid) =
          executeCalls st @ [\<lparr>executionId = executionId x, nodeId = nodeId x, taskId = nid\<rparr>]
        \<and> queueOf (run st rp nid) (rp_executionId rp) = xs)
   \<and> launched e (executeCalls (foldl perform constructor cs))
        @ queueOf (foldl perform constructor cs) e = enqueued e cs"
proof (intro conjI impI)
  show "queueOf (addTask st np) (executionId np) = queueOf st (executionId np) @ [np]"
    by (simp add: queueOf_addTask)
next
  assume "queueOf st (rp_executionId rp) = x # xs"
  then show "executeCalls (run st rp nid) =
          executeCalls st @ [\<lparr>executionId = executionId x, nodeId = nodeId x, taskId = nid\<rparr>]"
    by (simp add: executeCalls_run)
next
  assume "queueOf st (rp_executionId rp) = x # xs"
  then show "queueOf (run st rp nid) (rp_executionId rp) = xs"
    by (simp add: queueOf_run)
next
  have "launched e (executeCalls constructor) @ queueOf constructor e = []"
    by (simp add: launched_def constructor_def queueOf_def Map_get_def)
  then show "launched e (executeCalls (foldl perform constructor cs))
        @ queueOf (foldl perform constructor cs) e = enqueued e cs"
    using foldl_perform_order [OF queues_wf_constructor, of e cs] by simp
qed

lemmas dispatcher_defs =
  constructor_def addTask_def run_def next_def getNextNode_def hasRunningTask_def
  pushTaskToRunningMap_def removeTaskFromRunningMap_def saveTaskResult_def interrupted_def
  exec_call_def exec_settled_def resume_call_def resume_settled_def emit_def
  Map_has_def Map_get_def Map_set_def Map_delete_def queueOf_def runningOf_def
  launched_def Let_def

theorem ready_queue_fifo_witness:
  "queueOf (addTask (addTask constructor \<lparr>executionId = ''e1'', nodeId = ''A''\<rparr>)
        \<lparr>executionId = ''e1'', nodeId = ''B''\<rparr>) ''e1''
     = [\<lparr>executionId = ''e1'', nodeId = ''A''\<rparr>, \<lparr>executionId = ''e1'', nodeId = ''B''\<rparr>]
   \<and> executeCalls (run (addTask constructor \<lparr>executionId = ''e1'', nodeId = ''A''\<rparr>)
        \<lparr>rp_executionId = ''e1'', rp_nodeId = None, rp_taskId = None\<rparr> ''task-1'')
     = [\<lparr>executionId = ''e1'', nodeId = ''A'', taskId = ''task-1''\<rparr>]
   \<and> queueOf (run (addTask constructor \<lparr>executionId = ''e1'', nodeId = ''A''\<rparr>)
        \<lparr>rp_executionId = ''e1'', rp_nodeId = None, rp_taskId = None\<rparr> ''task-1'') ''e1''
     = []
   \<and> launched ''e1'' (executeCalls (foldl perform constructor
        [AddTask \<lparr>executionId = ''e1'', nodeId = ''A''\<rparr>,
         AddTask \<lparr>executionId = ''e2'', nodeId = ''X''\<rparr>,
         AddTask \<lparr>executionId = ''e1'', nodeId = ''B''\<rparr>,
         Run \<lparr>rp_executionId = ''e1'', rp_nodeId = None, rp_taskId = None\<rparr> ''task-1'',
         AddTask \<lparr>executionId = ''e1'', nodeId = ''C''\<rparr>,
         Run \<lparr>rp_executionId = ''e1'', rp_nodeId = None, rp_taskId = None\<rparr> ''task-2'']))
     @ queueOf (foldl perform constructor
        [AddTask \<lparr>executionId = ''e1'', nodeId = ''A''\<rparr>,
         AddTask \<lparr>executionId = ''e2'', nodeId = ''X''\<rparr>,
         AddTask \<lparr>executionId = ''e1'', nodeId = ''B''\<rparr>,
         Run \<lparr>rp_executionId = ''e1'', rp_nodeId = None, rp_taskId = None\<rparr> ''task-1'',
         AddTask \<lparr>executionId = ''e1'', nodeId = ''C''\<rparr>,
         Run \<lparr>rp_executionId = ''e1'', rp_nodeId = None, rp_taskId = None\<rparr> ''task-2'']) ''e1''
     = [\<lparr>executionId = ''e1'', nodeId = ''A''\<rparr>, \<lparr>executionId = ''e1'', nodeId = ''B''\<rparr>,
        \<lparr>executionId = ''e1'', nodeId = ''C''\<rparr>]"
proof -
  let ?A = "\<lparr>executionId = ''e1'', nodeId = ''A''\<rparr>"
  let ?B = "\<lparr>executionId = ''e1'', nodeId = ''B''\<rparr>"
  let ?rp = "\<lparr>rp_executionId = ''e1'', rp_nodeId = None, rp_taskId = None\<rparr>"
  have c: "queueOf constructor ''e1'' = []"
    by (simp add: queueOf_def constructor_def Map_get_def)
  have q: "queueOf (addTask constructor ?A) (rp_executionId ?rp) = ?A # []"
    using c by (simp add: queueOf_addTask)
  have e: "executeCalls constructor = []"
    by (simp add: constructor_def)
  show ?thesis
    using q e ready_queue_fifo [where st = "addTask constructor ?A" and np = ?B and rp = ?rp
        and x = ?A and xs = "[]" and nid = "''task-1''" and e = "''e1''" and cs =
        "[AddTask \<lparr>executionId = ''e1'', nodeId = ''A''\<rparr>,
         AddTask \<lparr>executionId = ''e2'', nodeId = ''X''\<rparr>,
         AddTask \<lparr>executionId = ''e1'', nodeId = ''B''\<rparr>,
         Run \<lparr>rp_executionId = ''e1'', rp_nodeId = None, rp_taskId = None\<rparr> ''task-1'',
         AddTask \<lparr>executionId = ''e1'', nodeId = ''C''\<rparr>,
         Run \<lparr>rp_executionId = ''e1'', rp_nodeId = None, rp_taskId = None\<rparr> ''task-2'']"]
    by (simp add: executeCalls_addTask)
qed

text \<open>
  C6, as amended: \<open>addTask\<close> is a plain append, not an idempotent one. It changes
  nothing but the ready queue of the node's instance, to which it appends the node
  (running registry, recorder, events and invocations are unchanged), and calling it
  twice with the same node appends the node twice.
\<close>

theorem addTask_plain_append:
  "addTask st np =
     st\<lparr>nodeQueueMap := Map_set (nodeQueueMap st) (executionId np)
                          (queueOf st (executionId np) @ [np])\<rparr>
   \<and> queueOf (addTask st np) e =
       (if e = executionId np then queueOf st e @ [np] else queueOf st e)
   \<and> queueOf (addTask (addTask st np) np) (executionId np) =
       queueOf st (executionId np) @ [np, np]
   \<and> taskRunningMap (addTask st np) = taskRunningMap st
   \<and> recorder (addTask st np) = recorder st
   \<and> emitted (addTask st np) = emitted st
   \<and> executeCalls (addTask st np) = executeCalls st
   \<and> resumeCalls (addTask st np) = resumeCalls st"
proof (intro conjI)
  show "addTask st np =
     st\<lparr>nodeQueueMap := Map_set (nodeQueueMap st) (executionId np)
                          (queueOf st (executionId np) @ [np])\<rparr>"
    by (rule addTask_eq)
  show "queueOf (addTask st np) e =
       (if e = executionId np then queueOf st e @ [np] else queueOf st e)"
    by (rule queueOf_addTask)
  show "queueOf (addTask (addTask st np) np) (executionId np) =
       queueOf st (executionId np) @ [np, np]"
    by (simp add: queueOf_addTask)
qed (simp_all add: addTask_eq)

text \<open>
  C6 as stated fails: on a new dispatcher, adding the same node twice does not leave
  the state reached by adding it once.
\<close>

theorem addTask_idempotent_counterexample:
  "addTask (addTask constructor \<lparr>executionId = ''e1'', nodeId = ''A''\<rparr>)
       \<lparr>executionId = ''e1'', nodeId = ''A''\<rparr>
     \<noteq> addTask constructor \<lparr>executionId = ''e1'', nodeId = ''A''\<rparr>"
proof
  assume "addTask (addTask constructor \<lparr>executionId = ''e1'', nodeId = ''A''\<rparr>)
       \<lparr>executionId = ''e1'', nodeId = ''A''\<rparr>
     = addTask constructor \<lparr>executionId = ''e1'', nodeId = ''A''\<rparr>"
  then have "queueOf (addTask (addTask constructor \<lparr>executionId = ''e1'', nodeId = ''A''\<rparr>)
       \<lparr>executionId = ''e1'', nodeId = ''A''\<rparr>) ''e1''
     = queueOf (addTask constructor \<lparr>executionId = ''e1'', nodeId = ''A''\<rparr>) ''e1''"
    by simp
  then show False
    by (simp add: queueOf_addTask)
qed

section \<open>Interruption and continuation\<close>

lemma removeTaskFromRunningMap_running:
  "taskId tp \<noteq> [] \<Longrightarrow>
   Map_get (runningOf (removeTaskFromRunningMap st tp) e) t =
     (if e = executionId tp \<and> t = taskId tp then None else Map_get (runningOf st e) t)"
  by (cases "Map_get (taskRunningMap st) (executionId tp)")
     (auto simp: removeTaskFromRunningMap_def runningOf_def Map_get_set Map_get_delete
        Map_get_def [of "[]"])

lemma removeTaskFromRunningMap_fields:
  "nodeQueueMap (removeTaskFromRunningMap st tp) = nodeQueueMap st"
  "emitted (removeTaskFromRunningMap st tp) = emitted st"
  "recorder (removeTaskFromRunningMap st tp) = recorder st"
  "executeCalls (removeTaskFromRunningMap st tp) = executeCalls st"
  "resumeCalls (removeTaskFromRunningMap st tp) = resumeCalls st"
  by (simp_all add: removeTaskFromRunningMap_def Let_def split: option.splits)

lemma removeTaskFromRunningMap_keys:
  "map fst (taskRunningMap (removeTaskFromRunningMap st tp)) = map fst (taskRunningMap st)"
proof (cases "Map_get (taskRunningMap st) (executionId tp)")
  case None
  then show ?thesis
    by (simp add: removeTaskFromRunningMap_def Let_def)
next
  case (Some m)
  then have "executionId tp \<in> set (map fst (taskRunningMap st))"
    by (auto simp: Map_get_def dest: map_of_SomeD intro: rev_image_eqI)
  then show ?thesis
    using Some by (simp add: removeTaskFromRunningMap_def Let_def Map_set_def update_keys)
qed

text \<open>
  C4: when the \<open>execute\<close> of a task resolves to a result with status INTERRUPTED, the
  dispatcher leaves every ready queue as it is (no target of the result's outgoing
  edges is enqueued), removes the task from the running registry (and no other),
  emits the instance-interrupted event with the execution id, node id, task id and
  the result's detail, and does not launch: no \<open>execute\<close> is invoked, no
  instance-complete event is emitted and no entry of the running registry is evicted.
  The task id is a minted one, which is not empty.
\<close>

theorem exec_interrupted:
  assumes "ar_status r = INTERRUPTED" and "taskId tp \<noteq> []"
  shows "nodeQueueMap (exec_settled st tp (Some r) now) = nodeQueueMap st
       \<and> Map_get (runningOf (exec_settled st tp (Some r) now) e) t =
           (if e = executionId tp \<and> t = taskId tp then None else Map_get (runningOf st e) t)
       \<and> emitted (exec_settled st tp (Some r) now) =
           emitted st @ [EVENT_INSTANCE_INTERRUPTED (executionId tp) INTERRUPTED (nodeId tp)
                           (taskId tp) (ar_detail r)]
       \<and> executeCalls (exec_settled st tp (Some r) now) = executeCalls st
       \<and> map fst (taskRunningMap (exec_settled st tp (Some r) now)) =
           map fst (taskRunningMap st)"
proof -
  let ?st2 = "saveTaskResult (interrupted st r tp)
                \<lparr>executionId = executionId tp, nodeId = nodeId tp, taskId = taskId tp,
                 nodeType = ar_nodeType r, outgoing = [], properties = ar_properties r,
                 extraInfo = Some \<lparr>ei_status = ar_status r, ei_detail = ar_detail r\<rparr>\<rparr> now"
  have s: "exec_settled st tp (Some r) now = removeTaskFromRunningMap ?st2 tp"
    using assms(1) by (simp add: exec_settled_def Let_def)
  have r: "runningOf ?st2 e = runningOf st e"
    by (simp add: saveTaskResult_def interrupted_def emit_def runningOf_def)
  show ?thesis
    unfolding s
    by (simp add: removeTaskFromRunningMap_running [OF assms(2)] r
        removeTaskFromRunningMap_fields removeTaskFromRunningMap_keys)
       (simp add: saveTaskResult_def interrupted_def emit_def)
qed

theorem exec_interrupted_witness:
  "(let st = run (addTask (addTask constructor \<lparr>executionId = ''e1'', nodeId = ''B''\<rparr>)
                   \<lparr>executionId = ''e1'', nodeId = ''C''\<rparr>)
               \<lparr>rp_executionId = ''e1'', rp_nodeId = None, rp_taskId = None\<rparr> ''task-1'';
        tp = \<lparr>executionId = ''e1'', nodeId = ''B'', taskId = ''task-1''\<rparr>;
        r = \<lparr>ar_status = INTERRUPTED, ar_nodeType = ''form'', ar_properties = None,
             ar_outgoing = [\<lparr>target = ''D''\<rparr>], ar_detail = Some [(''formId'', ''42'')]\<rparr>
    in ar_status r = INTERRUPTED \<and> taskId tp \<noteq> []
       \<and> Map_get (runningOf st ''e1'') ''task-1'' = Some tp
       \<and> nodeQueueMap (exec_settled st tp (Some r) 7) =
           [(''e1'', [\<lparr>executionId = ''e1'', nodeId = ''C''\<rparr>])]
       \<and> Map_get (runningOf (exec_settled st tp (Some r) 7) ''e1'') ''task-1'' = None
       \<and> emitted (exec_settled st tp (Some r) 7) =
           [EVENT_INSTANCE_INTERRUPTED ''e1'' INTERRUPTED ''B'' ''task-1''
              (Some [(''formId'', ''42'')])]
       \<and> executeCalls (exec_settled st tp (Some r) 7) = [tp]
       \<and> map fst (taskRunningMap (exec_settled st tp (Some r) 7)) = [''e1''])"
proof -
  let ?st = "run (addTask (addTask constructor \<lparr>executionId = ''e1'', nodeId = ''B''\<rparr>)
                   \<lparr>executionId = ''e1'', nodeId = ''C''\<rparr>)
               \<lparr>rp_executionId = ''e1'', rp_nodeId = None, rp_taskId = None\<rparr> ''task-1''"
  let ?tp = "\<lparr>executionId = ''e1'', nodeId = ''B'', taskId = ''task-1''\<rparr>"
  let ?r = "\<lparr>ar_status = INTERRUPTED, ar_nodeType = ''form'', ar_properties = None,
             ar_outgoing = [\<lparr>target = ''D''\<rparr>], ar_detail = Some [(''formId'', ''42'')]\<rparr>"
  have st: "?st = \<lparr>nodeQueueMap = [(''e1'', [\<lparr>executionId = ''e1'', nodeId = ''C''\<rparr>])],
                   taskRunningMap = [(''e1'', [(''task-1'', ?tp)])], currentTask = None,
                   emitted = [], recorder = [], executeCalls = [?tp], resumeCalls = []\<rparr>"
    by (simp add: dispatcher_defs)
  have a: "ar_status ?r = INTERRUPTED" by simp
  have b: "taskId ?tp \<noteq> []" by simp
  show ?thesis
    unfolding Let_def
    using a b exec_interrupted [OF a b, of ?st 7 "''e1''" "''task-1''"]
    by (simp add: st runningOf_def Map_get_def)
qed

lemma queueOf_foldl_addTask:
  "queueOf (foldl addTask st nps) e = queueOf st e @ filter (\<lambda>np. executionId np = e) nps"
  by (induction nps arbitrary: st) (simp_all add: queueOf_addTask)

lemma foldl_addTask_fields:
  "taskRunningMap (foldl addTask st nps) = taskRunningMap st"
  "emitted (foldl addTask st nps) = emitted st"
  "recorder (foldl addTask st nps) = recorder st"
  "executeCalls (foldl addTask st nps) = executeCalls st"
  by (induction nps arbitrary: st) (simp_all add: addTask_eq)

lemma next_eq:
  "next st d now nid =
     run (removeTaskFromRunningMap
            (saveTaskResult
               (foldl addTask st
                  (map (\<lambda>item. \<lparr>executionId = executionId d, nodeId = target item\<rparr>) (outgoing d)))
               \<lparr>executionId = executionId d, nodeId = nodeId d, taskId = taskId d,
                nodeType = nodeType d, outgoing = outgoing d, properties = properties d,
                extraInfo = None\<rparr> now) d)
       \<lparr>rp_executionId = executionId d, rp_nodeId = Some (nodeId d),
        rp_taskId = Some (taskId d)\<rparr> nid"
  by (cases "outgoing d") (simp_all add: next_def Let_def foldl_map)

lemma removeTaskFromRunningMap_registry:
  "Map_get (runningOf (removeTaskFromRunningMap st tp) e) t =
     (if taskId tp \<noteq> [] \<and> e = executionId tp \<and> t = taskId tp then None
      else Map_get (runningOf st e) t)"
proof (cases "taskId tp = []")
  case True
  then show ?thesis
    by (simp add: removeTaskFromRunningMap_def)
next
  case False
  then show ?thesis
    by (simp add: removeTaskFromRunningMap_running)
qed

lemma filter_targets:
  "filter (\<lambda>np. executionId np = e)
     (map (\<lambda>item. \<lparr>executionId = x, nodeId = target item\<rparr>) items) =
   (if e = x then map (\<lambda>item. \<lparr>executionId = x, nodeId = target item\<rparr>) items else [])"
  by (induction items) simp_all

text \<open>
  C5, as amended: the continuation \<open>next\<close>, called with a result, calls \<open>addTask\<close>
  once for each entry of the result's outgoing edges, in order, with the execution id
  of the result and the target of the entry, so that exactly these nodes are appended
  to the ready queue of the instance and every other queue is as it was; hands exactly
  one record to the recorder; removes the settled task from the running registry when
  the task id of the result is not empty, and leaves the registry as it is when the
  task id is empty; every other running task stays registered and no instance is
  evicted; and then calls \<open>run\<close> for the instance with the node id and task id of
  the result. Before that \<open>run\<close> nothing is emitted and nothing is launched.
\<close>

theorem next_continuation:
  "\<exists>st3.
      next st d now nid =
        run st3 \<lparr>rp_executionId = executionId d, rp_nodeId = Some (nodeId d),
                 rp_taskId = Some (taskId d)\<rparr> nid
    \<and> nodeQueueMap st3 =
        nodeQueueMap (foldl addTask st
          (map (\<lambda>item. \<lparr>executionId = executionId d, nodeId = target item\<rparr>) (outgoing d)))
    \<and> (\<forall>e. queueOf st3 e =
          (if e = executionId d
           then queueOf st e
                  @ map (\<lambda>item. \<lparr>executionId = executionId d, nodeId = target item\<rparr>)
                      (outgoing d)
           else queueOf st e))
    \<and> recorder st3 =
        recorder st @
          [\<lparr>rd_executionId = executionId d, rd_taskId = taskId d, rd_nodeId = nodeId d,
            rd_nodeType = nodeType d, rd_timestamp = now, rd_properties = properties d,
            rd_extraInfo = None\<rparr>]
    \<and> (\<forall>e t. Map_get (runningOf st3 e) t =
          (if taskId d \<noteq> [] \<and> e = executionId d \<and> t = taskId d then None
           else Map_get (runningOf st e) t))
    \<and> map fst (taskRunningMap st3) = map fst (taskRunningMap st)
    \<and> emitted st3 = emitted st
    \<and> executeCalls st3 = executeCalls st
    \<and> resumeCalls st3 = resumeCalls st"
proof -
  let ?nps = "map (\<lambda>item. \<lparr>executionId = executionId d, nodeId = target item\<rparr>) (outgoing d)"
  let ?st1 = "foldl addTask st ?nps"
  let ?st2 = "saveTaskResult ?st1
               \<lparr>executionId = executionId d, nodeId = nodeId d, taskId = taskId d,
                nodeType = nodeType d, outgoing = outgoing d, properties = properties d,
                extraInfo = None\<rparr> now"
  let ?st3 = "removeTaskFromRunningMap ?st2 d"
  have run: "next st d now nid =
        run ?st3 \<lparr>rp_executionId = executionId d, rp_nodeId = Some (nodeId d),
                  rp_taskId = Some (taskId d)\<rparr> nid"
    by (rule next_eq)
  have nqm: "nodeQueueMap ?st3 = nodeQueueMap ?st1"
    by (simp add: removeTaskFromRunningMap_fields saveTaskResult_def)
  have q: "queueOf ?st3 e =
          (if e = executionId d then queueOf st e @ ?nps else queueOf st e)" for e
  proof -
    have "queueOf ?st3 e = queueOf ?st1 e"
      using nqm by (simp add: queueOf_def)
    then show ?thesis
      by (simp add: queueOf_foldl_addTask filter_targets)
  qed
  have rec: "recorder ?st3 =
        recorder st @
          [\<lparr>rd_executionId = executionId d, rd_taskId = taskId d, rd_nodeId = nodeId d,
            rd_nodeType = nodeType d, rd_timestamp = now, rd_properties = properties d,
            rd_extraInfo = None\<rparr>]"
    by (simp add: removeTaskFromRunningMap_fields saveTaskResult_def foldl_addTask_fields)
  have reg2: "runningOf ?st2 e = runningOf st e" for e
    by (simp add: runningOf_def saveTaskResult_def foldl_addTask_fields)
  have rm: "Map_get (runningOf ?st3 e) t =
          (if taskId d \<noteq> [] \<and> e = executionId d \<and> t = taskId d then None
           else Map_get (runningOf st e) t)" for e t
    by (simp add: removeTaskFromRunningMap_registry reg2)
  have keys: "map fst (taskRunningMap ?st3) = map fst (taskRunningMap st)"
    by (simp add: removeTaskFromRunningMap_keys saveTaskResult_def foldl_addTask_fields)
  have em: "emitted ?st3 = emitted st" "executeCalls ?st3 = executeCalls st"
    by (simp_all add: removeTaskFromRunningMap_fields saveTaskResult_def foldl_addTask_fields)
  have "resumeCalls (foldl addTask s nps) = resumeCalls s" for s nps
    by (induction nps arbitrary: s) (simp_all add: addTask_eq)
  then have res: "resumeCalls ?st3 = resumeCalls st"
    by (simp add: removeTaskFromRunningMap_fields saveTaskResult_def)
  show ?thesis
    using run nqm q rec rm keys em res by blast
qed

theorem next_continuation_witness:
  "(let st = run (run (addTask (addTask constructor \<lparr>executionId = ''e1'', nodeId = ''B''\<rparr>)
                        \<lparr>executionId = ''e1'', nodeId = ''C''\<rparr>)
                    \<lparr>rp_executionId = ''e1'', rp_nodeId = None, rp_taskId = None\<rparr> ''task-2'')
               \<lparr>rp_executionId = ''e1'', rp_nodeId = None, rp_taskId = None\<rparr> ''task-3'';
        d = \<lparr>executionId = ''e1'', nodeId = ''B'', taskId = ''task-2'', nodeType = ''step'',
             outgoing = [\<lparr>target = ''D''\<rparr>, \<lparr>target = ''E''\<rparr>], properties = None\<rparr>
    in Map_get (runningOf st ''e1'') ''task-2''
            = Some \<lparr>executionId = ''e1'', nodeId = ''B'', taskId = ''task-2''\<rparr>
       \<and> Map_get (runningOf st ''e1'') ''task-3''
            = Some \<lparr>executionId = ''e1'', nodeId = ''C'', taskId = ''task-3''\<rparr>
       \<and> (\<exists>st3.
             next st d 9 ''task-4'' =
               run st3 \<lparr>rp_executionId = ''e1'', rp_nodeId = Some ''B'',
                        rp_taskId = Some ''task-2''\<rparr> ''task-4''
           \<and> queueOf st3 ''e1'' =
               [\<lparr>executionId = ''e1'', nodeId = ''D''\<rparr>, \<lparr>executionId = ''e1'', nodeId = ''E''\<rparr>]
           \<and> recorder st3 =
               [\<lparr>rd_executionId = ''e1'', rd_taskId = ''task-2'', rd_nodeId = ''B'',
                 rd_nodeType = ''step'', rd_timestamp = 9, rd_properties = None,
                 rd_extraInfo = None\<rparr>]
           \<and> Map_get (runningOf st3 ''e1'') ''task-2'' = None
           \<and> Map_get (runningOf st3 ''e1'') ''task-3''
                = Some \<lparr>executionId = ''e1'', nodeId = ''C'', taskId = ''task-3''\<rparr>
           \<and> map fst (taskRunningMap st3) = [''e1'']
           \<and> emitted st3 = [])
       \<and> emitted (next st d 9 ''task-4'') = []
       \<and> executeCalls (next st d 9 ''task-4'') =
           [\<lparr>executionId = ''e1'', nodeId = ''B'', taskId = ''task-2''\<rparr>,
            \<lparr>executionId = ''e1'', nodeId = ''C'', taskId = ''task-3''\<rparr>,
            \<lparr>executionId = ''e1'', nodeId = ''D'', taskId = ''task-4''\<rparr>])"
proof -
  let ?tB = "\<lparr>executionId = ''e1'', nodeId = ''B'', taskId = ''task-2''\<rparr>"
  let ?tC = "\<lparr>executionId = ''e1'', nodeId = ''C'', taskId = ''task-3''\<rparr>"
  let ?st = "run (run (addTask (addTask constructor \<lparr>executionId = ''e1'', nodeId = ''B''\<rparr>)
                        \<lparr>executionId = ''e1'', nodeId = ''C''\<rparr>)
                    \<lparr>rp_executionId = ''e1'', rp_nodeId = None, rp_taskId = None\<rparr> ''task-2'')
               \<lparr>rp_executionId = ''e1'', rp_nodeId = None, rp_taskId = None\<rparr> ''task-3''"
  let ?d = "\<lparr>executionId = ''e1'', nodeId = ''B'', taskId = ''task-2'', nodeType = ''step'',
             outgoing = [\<lparr>target = ''D''\<rparr>, \<lparr>target = ''E''\<rparr>], properties = None\<rparr>"
  have st: "?st = \<lparr>nodeQueueMap = [(''e1'', [])],
                   taskRunningMap = [(''e1'', [(''task-2'', ?tB), (''task-3'', ?tC)])],
                   currentTask = None, emitted = [], recorder = [],
                   executeCalls = [?tB, ?tC], resumeCalls = []\<rparr>"
    by (simp add: dispatcher_defs)
  have x: "executeCalls (next ?st ?d 9 ''task-4'') =
           [?tB, ?tC, \<lparr>executionId = ''e1'', nodeId = ''D'', taskId = ''task-4''\<rparr>]"
    "emitted (next ?st ?d 9 ''task-4'') = []"
    unfolding st by (simp_all add: dispatcher_defs)
  have q: "queueOf ?st ''e1'' = []" "recorder ?st = []" "emitted ?st = []"
    "Map_get (runningOf ?st ''e1'') ''task-2'' = Some ?tB"
    "Map_get (runningOf ?st ''e1'') ''task-3'' = Some ?tC"
    "map fst (taskRunningMap ?st) = [''e1'']"
    unfolding st by (simp_all add: queueOf_def runningOf_def Map_get_def)
  obtain st3 where h:
    "next ?st ?d 9 ''task-4'' =
        run st3 \<lparr>rp_executionId = executionId ?d, rp_nodeId = Some (nodeId ?d),
                 rp_taskId = Some (taskId ?d)\<rparr> ''task-4''
    \<and> nodeQueueMap st3 =
        nodeQueueMap (foldl addTask ?st
          (map (\<lambda>item. \<lparr>executionId = executionId ?d, nodeId = target item\<rparr>) (outgoing ?d)))
    \<and> (\<forall>e. queueOf st3 e =
          (if e = executionId ?d
           then queueOf ?st e
                  @ map (\<lambda>item. \<lparr>executionId = executionId ?d, nodeId = target item\<rparr>)
                      (outgoing ?d)
           else queueOf ?st e))
    \<and> recorder st3 =
        recorder ?st @
          [\<lparr>rd_executionId = executionId ?d, rd_taskId = taskId ?d, rd_nodeId = nodeId ?d,
            rd_nodeType = nodeType ?d, rd_timestamp = 9, rd_properties = properties ?d,
            rd_extraInfo = None\<rparr>]
    \<and> (\<forall>e t. Map_get (runningOf st3 e) t =
          (if taskId ?d \<noteq> [] \<and> e = executionId ?d \<and> t = taskId ?d then None
           else Map_get (runningOf ?st e) t))
    \<and> map fst (taskRunningMap st3) = map fst (taskRunningMap ?st)
    \<and> emitted st3 = emitted ?st
    \<and> executeCalls st3 = executeCalls ?st
    \<and> resumeCalls st3 = resumeCalls ?st"
    using next_continuation [of ?st ?d 9 "''task-4''"] ..
  have c1: "next ?st ?d 9 ''task-4'' =
               run st3 \<lparr>rp_executionId = ''e1'', rp_nodeId = Some ''B'',
                        rp_taskId = Some ''task-2''\<rparr> ''task-4''"
    using h by simp
  have c2: "queueOf st3 ''e1'' =
               [\<lparr>executionId = ''e1'', nodeId = ''D''\<rparr>, \<lparr>executionId = ''e1'', nodeId = ''E''\<rparr>]"
    using h q(1) by simp
  have c3: "recorder st3 =
               [\<lparr>rd_executionId = ''e1'', rd_taskId = ''task-2'', rd_nodeId = ''B'',
                 rd_nodeType = ''step'', rd_timestamp = 9, rd_properties = None,
                 rd_extraInfo = None\<rparr>]"
    using h q(2) by simp
  have c4: "Map_get (runningOf st3 ''e1'') ''task-2'' = None"
    using h by simp
  have c5: "Map_get (runningOf st3 ''e1'') ''task-3'' = Some ?tC"
    using h q(5) by simp
  have c6: "map fst (taskRunningMap st3) = [''e1'']"
    using h q(6) by simp
  have c7: "emitted st3 = []"
    using h q(3) by simp
  show ?thesis
    unfolding Let_def
    apply (intro conjI)
        apply (rule q(4))
       apply (rule q(5))
      apply (rule exI [of _ st3])
      apply (intro conjI)
            apply (rule c1)
           apply (rule c2)
          apply (rule c3)
         apply (rule c4)
        apply (rule c5)
       apply (rule c6)
      apply (rule c7)
     apply (rule x(2))
    apply (rule x(1))
    done
qed

text \<open>
  C5 as stated fails for an empty task id: \<open>removeTaskFromRunningMap\<close> returns at
  once when the task id is falsy. A branch resumed with the empty task id is
  registered under it; when its continuation is called with that id, the entry stays
  in the running registry, and the \<open>run\<close> that follows finds the registry non-empty
  and emits nothing.
\<close>

theorem next_continuation_counterexample:
  "Map_get
     (runningOf
        (next (resume_call constructor
                 \<lparr>executionId = ''e1'', nodeId = ''B'', taskId = [], data = None\<rparr>)
           \<lparr>executionId = ''e1'', nodeId = ''B'', taskId = [], nodeType = ''form'',
            outgoing = [], properties = None\<rparr> 5 ''task-2'')
        ''e1'') []
     = Some \<lparr>executionId = ''e1'', nodeId = ''B'', taskId = []\<rparr>
   \<and> emitted
        (next (resume_call constructor
                 \<lparr>executionId = ''e1'', nodeId = ''B'', taskId = [], data = None\<rparr>)
           \<lparr>executionId = ''e1'', nodeId = ''B'', taskId = [], nodeType = ''form'',
            outgoing = [], properties = None\<rparr> 5 ''task-2'') = []"
  by (simp add: dispatcher_defs)

section \<open>Resumption\<close>

text \<open>
  C7: when the \<open>resume\<close> operation of a node resolves to a result with status
  INTERRUPTED, the dispatcher does nothing with it: \<open>resume\<close> emits no event and hands
  no record to the recorder, neither when it is called nor when the result arrives,
  and what it does is the same for a result with any other status. The \<open>execute\<close>
  path, given the same result, emits the instance-interrupted event and hands a record
  to the recorder.
\<close>

theorem resume_ignores_interrupted_result:
  assumes "ar_status r = INTERRUPTED"
  shows "resume_settled st' rp (Some r) = st'
       \<and> emitted (resume_settled (resume_call st rp) rp (Some r)) = emitted st
       \<and> recorder (resume_settled (resume_call st rp) rp (Some r)) = recorder st
       \<and> resume_settled st' rp (Some r) = resume_settled st' rp (Some (r\<lparr>ar_status := COMPLETED\<rparr>))
       \<and> emitted (exec_settled st' tp (Some r) now) =
           emitted st' @ [EVENT_INSTANCE_INTERRUPTED (executionId tp) INTERRUPTED (nodeId tp)
                            (taskId tp) (ar_detail r)]
       \<and> length (recorder (exec_settled st' tp (Some r) now)) = Suc (length (recorder st'))"
proof -
  have "emitted (resume_call st rp) = emitted st" "recorder (resume_call st rp) = recorder st"
    by (simp_all add: resume_call_def pushTaskToRunningMap_eq)
  moreover have "emitted (exec_settled st' tp (Some r) now) =
           emitted st' @ [EVENT_INSTANCE_INTERRUPTED (executionId tp) INTERRUPTED (nodeId tp)
                            (taskId tp) (ar_detail r)]"
    using assms
    by (simp add: exec_settled_def Let_def removeTaskFromRunningMap_fields saveTaskResult_def
        interrupted_def emit_def)
  moreover have "length (recorder (exec_settled st' tp (Some r) now)) = Suc (length (recorder st'))"
    using assms
    by (simp add: exec_settled_def Let_def removeTaskFromRunningMap_fields saveTaskResult_def
        interrupted_def emit_def)
  ultimately show ?thesis
    by (simp add: resume_settled_def)
qed

theorem resume_ignores_interrupted_result_witness:
  "(let st = exec_settled
               (run (addTask constructor \<lparr>executionId = ''e1'', nodeId = ''B''\<rparr>)
                  \<lparr>rp_executionId = ''e1'', rp_nodeId = None, rp_taskId = None\<rparr> ''task-1'')
               \<lparr>executionId = ''e1'', nodeId = ''B'', taskId = ''task-1''\<rparr>
               (Some \<lparr>ar_status = INTERRUPTED, ar_nodeType = ''form'', ar_properties = None,
                      ar_outgoing = [], ar_detail = None\<rparr>) 7;
        rp = \<lparr>executionId = ''e1'', nodeId = ''B'', taskId = ''task-1'', data = None\<rparr>;
        r = \<lparr>ar_status = INTERRUPTED, ar_nodeType = ''form'', ar_properties = None,
             ar_outgoing = [], ar_detail = Some [(''formId'', ''42'')]\<rparr>
    in ar_status r = INTERRUPTED
       \<and> emitted (resume_settled (resume_call st rp) rp (Some r)) = emitted st
       \<and> recorder (resume_settled (resume_call st rp) rp (Some r)) = recorder st
       \<and> Map_get (runningOf (resume_settled (resume_call st rp) rp (Some r)) ''e1'') ''task-1''
            = Some \<lparr>executionId = ''e1'', nodeId = ''B'', taskId = ''task-1''\<rparr>)"
proof -
  let ?st = "exec_settled
               (run (addTask constructor \<lparr>executionId = ''e1'', nodeId = ''B''\<rparr>)
                  \<lparr>rp_executionId = ''e1'', rp_nodeId = None, rp_taskId = None\<rparr> ''task-1'')
               \<lparr>executionId = ''e1'', nodeId = ''B'', taskId = ''task-1''\<rparr>
               (Some \<lparr>ar_status = INTERRUPTED, ar_nodeType = ''form'', ar_properties = None,
                      ar_outgoing = [], ar_detail = None\<rparr>) 7"
  let ?rp = "\<lparr>executionId = ''e1'', nodeId = ''B'', taskId = ''task-1'', data = None\<rparr>"
  let ?r = "\<lparr>ar_status = INTERRUPTED, ar_nodeType = ''form'', ar_properties = None,
             ar_outgoing = [], ar_detail = Some [(''formId'', ''42'')]\<rparr>"
  have a: "ar_status ?r = INTERRUPTED" by simp
  have m: "Map_get (runningOf (resume_settled (resume_call ?st ?rp) ?rp (Some ?r)) ''e1'') ''task-1''
            = Some \<lparr>executionId = ''e1'', nodeId = ''B'', taskId = ''task-1''\<rparr>"
    by (simp add: resume_settled_def resume_call_def pushTaskToRunningMap_eq runningOf_def
        Map_get_set)
  show ?thesis
    unfolding Let_def
    using a m resume_ignores_interrupted_result [OF a, of ?st ?rp ?st]
    by simp
qed

section \<open>What is persisted and what is retained\<close>

text \<open>
  C1: the record that the dispatcher hands to the recorder for a task whose
  \<open>execute\<close> result has status INTERRUPTED. \<open>exec\<close> passes
  \<open>extraInfo = {status, detail}\<close> to \<open>saveTaskResult\<close>, which leaves it out of the
  record it builds: the record carries the execution id, task id, node id, node type,
  timestamp and properties, and no \<open>extraInfo\<close>. This holds for every interrupted
  result, and in particular for a node \<open>B\<close> interrupted with detail \<open>formId = 42\<close>.
\<close>

theorem interrupted_record_has_no_extraInfo:
  "recorder (exec_settled st tp (Some (r\<lparr>ar_status := INTERRUPTED\<rparr>)) now) =
     recorder st @
       [\<lparr>rd_executionId = executionId tp, rd_taskId = taskId tp, rd_nodeId = nodeId tp,
         rd_nodeType = ar_nodeType r, rd_timestamp = now, rd_properties = ar_properties r,
         rd_extraInfo = None\<rparr>]
   \<and> recorder
        (exec_settled
           (run (addTask constructor \<lparr>executionId = ''e1'', nodeId = ''B''\<rparr>)
              \<lparr>rp_executionId = ''e1'', rp_nodeId = None, rp_taskId = None\<rparr> ''task-1'')
           \<lparr>executionId = ''e1'', nodeId = ''B'', taskId = ''task-1''\<rparr>
           (Some \<lparr>ar_status = INTERRUPTED, ar_nodeType = ''form'', ar_properties = None,
                  ar_outgoing = [], ar_detail = Some [(''formId'', ''42'')]\<rparr>) 7) =
       [\<lparr>rd_executionId = ''e1'', rd_taskId = ''task-1'', rd_nodeId = ''B'',
         rd_nodeType = ''form'', rd_timestamp = 7, rd_properties = None,
         rd_extraInfo = None\<rparr>]"
proof
  show "recorder (exec_settled st tp (Some (r\<lparr>ar_status := INTERRUPTED\<rparr>)) now) =
     recorder st @
       [\<lparr>rd_executionId = executionId tp, rd_taskId = taskId tp, rd_nodeId = nodeId tp,
         rd_nodeType = ar_nodeType r, rd_timestamp = now, rd_properties = ar_properties r,
         rd_extraInfo = None\<rparr>]"
    by (simp add: exec_settled_def Let_def removeTaskFromRunningMap_fields saveTaskResult_def
        interrupted_def emit_def)
next
  show "recorder
        (exec_settled
           (run (addTask constructor \<lparr>executionId = ''e1'', nodeId = ''B''\<rparr>)
              \<lparr>rp_executionId = ''e1'', rp_nodeId = None, rp_taskId = None\<rparr> ''task-1'')
           \<lparr>executionId = ''e1'', nodeId = ''B'', taskId = ''task-1''\<rparr>
           (Some \<lparr>ar_status = INTERRUPTED, ar_nodeType = ''form'', ar_properties = None,
                  ar_outgoing = [], ar_detail = Some [(''formId'', ''42'')]\<rparr>) 7) =
       [\<lparr>rd_executionId = ''e1'', rd_taskId = ''task-1'', rd_nodeId = ''B'',
         rd_nodeType = ''form'', rd_timestamp = 7, rd_properties = None,
         rd_extraInfo = None\<rparr>]"
    by (simp add: dispatcher_defs)
qed

lemmas recorder_defs =
  Recorder_addTask_def Recorder_clear_def Recorder_getTask_def Recorder_getExecutionTasks_def
  clear_instance_def or_empty_def getItem_def setItem_def removeItem_def
  LOGICFLOW_ENGINE_INSTANCES_def Map_get_def Map_set_def Map_delete_def Let_def

lemma clear_instance_eq: "clear_instance s e = Inr (removeItem s e)"
  by (simp add: clear_instance_def or_empty_def getItem_def removeItem_def Map_get_delete)

text \<open>
  C8: \<open>Recorder.clear\<close> removes the task-id index of an execution id before it reads
  it, so the index it reads is always absent and the inner loop removes nothing: for
  every storage, the body of the loop only removes the index. After one record has
  been added to an empty storage, \<open>clear\<close> removes the instance list and the index
  and leaves the task record in the storage, where \<open>getTask\<close> still finds it.
\<close>

theorem clear_leaves_task_records:
  "clear_instance s e = Inr (removeItem s e)
   \<and> Recorder_addTask []
        \<lparr>rd_executionId = ''e1'', rd_taskId = ''task-1'', rd_nodeId = ''A'',
         rd_nodeType = ''start'', rd_timestamp = 5, rd_properties = None,
         rd_extraInfo = None\<rparr> =
       Inr [(''LOGICFLOW_ENGINE_INSTANCES'', Ids [''e1'']),
            (''e1'', Ids [''task-1'']),
            (''task-1'', Task \<lparr>rd_executionId = ''e1'', rd_taskId = ''task-1'',
               rd_nodeId = ''A'', rd_nodeType = ''start'', rd_timestamp = 5,
               rd_properties = None, rd_extraInfo = None\<rparr>)]
   \<and> Recorder_clear
        [(''LOGICFLOW_ENGINE_INSTANCES'', Ids [''e1'']),
         (''e1'', Ids [''task-1'']),
         (''task-1'', Task \<lparr>rd_executionId = ''e1'', rd_taskId = ''task-1'',
            rd_nodeId = ''A'', rd_nodeType = ''start'', rd_timestamp = 5,
            rd_properties = None, rd_extraInfo = None\<rparr>)] =
       Inr [(''task-1'', Task \<lparr>rd_executionId = ''e1'', rd_taskId = ''task-1'',
               rd_nodeId = ''A'', rd_nodeType = ''start'', rd_timestamp = 5,
               rd_properties = None, rd_extraInfo = None\<rparr>)]
   \<and> Recorder_getTask
        [(''task-1'', Task \<lparr>rd_executionId = ''e1'', rd_taskId = ''task-1'',
            rd_nodeId = ''A'', rd_nodeType = ''start'', rd_timestamp = 5,
            rd_properties = None, rd_extraInfo = None\<rparr>)] ''task-1'' =
       Some (Task \<lparr>rd_executionId = ''e1'', rd_taskId = ''task-1'',
               rd_nodeId = ''A'', rd_nodeType = ''start'', rd_timestamp = 5,
               rd_properties = None, rd_extraInfo = None\<rparr>)"
  by (simp add: clear_instance_eq) (simp add: recorder_defs)

lemma run_keeps_queue_keys: "map fst (nodeQueueMap (run st rp nid)) = map fst (nodeQueueMap st)"
proof (cases "queueOf st (rp_executionId rp)")
  case Nil
  then show ?thesis
    by (simp add: run_empty emit_def hasRunningTask_snd)
next
  case (Cons x xs)
  then have "Map_get (nodeQueueMap st) (rp_executionId rp) = Some (x # xs)"
    by (simp add: queueOf_def split: option.splits)
  then have "rp_executionId rp \<in> set (map fst (nodeQueueMap st))"
    by (auto simp: Map_get_def dest: map_of_SomeD intro: rev_image_eqI)
  then show ?thesis
    using Cons by (simp add: run_cons exec_call_def pushTaskToRunningMap_eq Map_set_def update_keys)
qed

text \<open>
  C9: an instance that has ended keeps its entry in the ready-queue map. \<open>run\<close> never
  removes a key of the ready-queue map (only \<open>hasRunningTask\<close> evicts, and only from
  the running registry). For one node \<open>A\<close> without outgoing edges: after \<open>addTask\<close>,
  \<open>run\<close> and the node's continuation, the instance-complete event has been emitted
  and the running registry has no entry for the instance, and the ready-queue map
  still maps the execution id to an empty queue.
\<close>

theorem ended_instance_keeps_queue_entry:
  "map fst (nodeQueueMap (run st rp nid)) = map fst (nodeQueueMap st)
   \<and> next (run (addTask constructor \<lparr>executionId = ''e1'', nodeId = ''A''\<rparr>)
              \<lparr>rp_executionId = ''e1'', rp_nodeId = None, rp_taskId = None\<rparr> ''task-1'')
        \<lparr>executionId = ''e1'', nodeId = ''A'', taskId = ''task-1'', nodeType = ''start'',
         outgoing = [], properties = None\<rparr> 5 ''task-2'' =
       \<lparr>nodeQueueMap = [(''e1'', [])], taskRunningMap = [], currentTask = None,
        emitted = [EVENT_INSTANCE_COMPLETE ''e1'' (Some ''A'') (Some ''task-1'') COMPLETED],
        recorder = [\<lparr>rd_executionId = ''e1'', rd_taskId = ''task-1'', rd_nodeId = ''A'',
                     rd_nodeType = ''start'', rd_timestamp = 5, rd_properties = None,
                     rd_extraInfo = None\<rparr>],
        executeCalls = [\<lparr>executionId = ''e1'', nodeId = ''A'', taskId = ''task-1''\<rparr>],
        resumeCalls = []\<rparr>"
  by (simp add: run_keeps_queue_keys) (simp add: dispatcher_defs)

end
